theory Spec2Isabelle
  imports Main
begin

section \<open>Values of the Python program\<close>

text \<open>
  A Python \<open>str\<close> is modelled by the \<^typ>\<open>string\<close> of its UTF-8 bytes, so that the
  glyphs of the source are byte sequences and equality of strings is equality of texts.
\<close>

text \<open>
  The object \<open>await response.json()\<close> returns: any JSON value.  A float is kept as the
  text of its literal (the program never computes with one); an object is the list of
  the key/value pairs of the parsed dict, looked up with \<^const>\<open>map_of\<close>.
\<close>

datatype json =
    JNull
  | JBool bool
  | JInt int
  | JFloat string
  | JStr string
  | JArr "json list"
  | JObj "(string \<times> json) list"

text \<open>The exceptions (all subclasses of \<open>Exception\<close>) that the modelled calls raise.\<close>

datatype error =
    ClientError      \<comment> \<open>\<open>session.get\<close> could not complete\<close>
  | DecodeError      \<comment> \<open>\<open>response.json()\<close> rejected the body\<close>
  | TypeError
  | KeyError
  | NotFound         \<comment> \<open>\<open>discord.NotFound\<close>\<close>
  | HTTPException    \<comment> \<open>any other \<open>discord.HTTPException\<close>, \<open>Forbidden\<close> included\<close>

text \<open>
  What a \<open>raise\<close> inside \<open>fetch_status_from_github\<close> carries: an exception of class
  \<open>Exception\<close>, or \<open>asyncio.CancelledError\<close>, which is a \<open>BaseException\<close> outside that
  class and is raised at an \<open>await\<close> when the task is cancelled.
\<close>

datatype raised = Exception error | CancelledError

text \<open>
  One constructor per \<open>print\<close> call of \<open>fetch_status_from_github\<close> and
  \<open>update_status_message\<close>.
\<close>

datatype log_line =
    Fetched json               \<comment> \<open>\<open>Fetched status: {data}\<close>\<close>
  | Updated string string      \<comment> \<open>\<open>Updated {component} to {new_status}\<close>\<close>
  | FetchFailedHTTP int        \<comment> \<open>\<open>Failed to fetch status: HTTP {response.status}\<close>\<close>
  | FetchError error           \<comment> \<open>\<open>Error fetching status from GitHub: {e}\<close>\<close>
  | ChannelNotFound            \<comment> \<open>\<open>Channel not found!\<close>\<close>
  | MessageUpdated int         \<comment> \<open>\<open>Updated status message {status_message_id}\<close>\<close>
  | MessageNotFound int        \<comment> \<open>\<open>Status message {id} not found! Please update STATUS_MESSAGE_ID in .env\<close>\<close>
  | EditError error            \<comment> \<open>\<open>Error editing message: {e}\<close>\<close>
  | NoMessageId                \<comment> \<open>\<open>No STATUS_MESSAGE_ID set! Please create a message manually and set its ID in .env\<close>\<close>
  | UpdateError error          \<comment> \<open>\<open>Error updating status message: {e}\<close>\<close>

subsection \<open>Glyphs\<close>

definition red_circle :: string where
  "red_circle = [CHR 0xF0, CHR 0x9F, CHR 0x94, CHR 0xB4]"

definition green_circle :: string where
  "green_circle = [CHR 0xF0, CHR 0x9F, CHR 0x9F, CHR 0xA2]"

definition yellow_circle :: string where
  "yellow_circle = [CHR 0xF0, CHR 0x9F, CHR 0x9F, CHR 0xA1]"

definition orange_circle :: string where
  "orange_circle = [CHR 0xF0, CHR 0x9F, CHR 0x9F, CHR 0xA0]"

definition white_circle :: string where
  "white_circle = [CHR 0xE2, CHR 0x9A, CHR 0xAA]"

definition desktop_computer :: string where
  "desktop_computer = [CHR 0xF0, CHR 0x9F, CHR 0x96, CHR 0xA5, CHR 0xEF, CHR 0xB8, CHR 0x8F]"

definition check_mark :: string where
  "check_mark = [CHR 0xE2, CHR 0x9C, CHR 0x85]"

definition warning_sign :: string where
  "warning_sign = [CHR 0xE2, CHR 0x9A, CHR 0xA0, CHR 0xEF, CHR 0xB8, CHR 0x8F]"

definition bullet :: string where
  "bullet = [CHR 0xE2, CHR 0x80, CHR 0xA2]"

section \<open>Status storage\<close>

text \<open>
  The inner dictionaries of \<open>current_status\<close> have the three fixed keys \<open>status\<close>,
  \<open>last_update\<close> and \<open>color\<close>; \<open>last_update\<close> is \<open>None\<close> or a formatted time.
\<close>

record component_status =
  status :: string
  last_update :: "string option"
  color :: string

text \<open>
  The dictionary \<open>current_status\<close>, in insertion order (the order \<open>.values()\<close>
  iterates in).  The constant is its value at process start.
\<close>

type_synonym status_store = "(string \<times> component_status) list"

definition current_status :: status_store where
  "current_status =
     [(''admin'', \<lparr>status = ''Offline'', last_update = None, color = red_circle\<rparr>),
      (''usermode'', \<lparr>status = ''Offline'', last_update = None, color = red_circle\<rparr>),
      (''server'', \<lparr>status = ''Offline'', last_update = None, color = red_circle\<rparr>)]"

definition STATUS_OPTIONS :: "(string \<times> (string \<times> string) list) list" where
  "STATUS_OPTIONS =
     [(''admin'',
         [(''Online'', green_circle),
          (''Busy'', yellow_circle),
          (''Sleeping'', orange_circle),
          (''Offline'', red_circle)]),
      (''usermode'',
         [(''Online'', green_circle),
          (''Updating'', yellow_circle),
          (''Offline'', red_circle)]),
      (''server'',
         [(''Online'', green_circle),
          (''Medium'', yellow_circle),
          (''Offline'', red_circle)])]"

text \<open>\<open>d.get(k, default)\<close>\<close>

definition dict_get :: "('k \<times> 'v) list \<Rightarrow> 'k \<Rightarrow> 'v \<Rightarrow> 'v" where
  "dict_get d k dflt = (case map_of d k of None \<Rightarrow> dflt | Some v \<Rightarrow> v)"

definition get_status_color :: "string \<Rightarrow> string \<Rightarrow> string" where
  "get_status_color category st =
     dict_get (dict_get STATUS_OPTIONS category []) st white_circle"

text \<open>
  An assignment \<open>current_status[component][field] = v\<close>: the entry under the key is
  changed in place, the keys and their order stay.
\<close>

definition store_modify ::
  "string \<Rightarrow> (component_status \<Rightarrow> component_status) \<Rightarrow> status_store \<Rightarrow> status_store" where
  "store_modify component f cs =
     map (\<lambda>(k, entry). if k = component then (k, f entry) else (k, entry)) cs"

section \<open>Remote fetcher\<close>

text \<open>\<open>x in s\<close> for two strings: \<open>x\<close> occurs in \<open>s\<close> as a contiguous piece.\<close>

fun substring :: "string \<Rightarrow> string \<Rightarrow> bool" where
  "substring x [] = (x = [])"
| "substring x (c # s) = (take (length x) (c # s) = x \<or> substring x s)"

text \<open>
  \<open>component in data\<close>: a key test on an object, an element test on an array, a
  substring test on a string; \<open>None\<close>, booleans and numbers are not iterable.
\<close>

definition py_in :: "string \<Rightarrow> json \<Rightarrow> error + bool" where
  "py_in component data =
     (case data of
        JObj kvs \<Rightarrow> Inr (map_of kvs component \<noteq> None)
      | JArr xs \<Rightarrow> Inr (JStr component \<in> set xs)
      | JStr s \<Rightarrow> Inr (substring component s)
      | _ \<Rightarrow> Inl TypeError)"

text \<open>
  \<open>data[component]\<close> with a string index: the value under the key of an object
  (\<open>KeyError\<close> without it); arrays and strings take integer indices only, the other
  values are not subscriptable.
\<close>

definition py_getitem :: "json \<Rightarrow> string \<Rightarrow> error + json" where
  "py_getitem data component =
     (case data of
        JObj kvs \<Rightarrow> (case map_of kvs component of None \<Rightarrow> Inl KeyError | Some v \<Rightarrow> Inr v)
      | _ \<Rightarrow> Inl TypeError)"

text \<open>
  The clock: \<open>now component\<close> is the text that
  \<open>datetime.datetime.now().strftime("%Y-%m-%d %H:%M:%S")\<close> yields when it is called
  for \<open>component\<close> (it is called at most once for each component in one fetch).
\<close>

type_synonym clock = "string \<Rightarrow> string"

text \<open>
  The body of the loop \<open>for component in ['admin', 'usermode', 'server']\<close>.  It yields
  the store and the lines printed, or the exception raised.  The test
  \<open>new_status in STATUS_OPTIONS.get(component, {})\<close> hashes \<open>new_status\<close>: a list or a
  dict is unhashable (\<open>TypeError\<close>), and of the hashable values only a string can equal
  a key.  Every raise comes before the first assignment, so a step that raises has not
  written.
\<close>

definition fetch_loop_body ::
  "clock \<Rightarrow> json \<Rightarrow> string \<Rightarrow> status_store \<Rightarrow> error + (status_store \<times> log_line list)" where
  "fetch_loop_body now data component cs =
     (case py_in component data of
        Inl e \<Rightarrow> Inl e
      | Inr False \<Rightarrow> Inr (cs, [])
      | Inr True \<Rightarrow>
          (case py_getitem data component of
             Inl e \<Rightarrow> Inl e
           | Inr new_status \<Rightarrow>
               (case new_status of
                  JArr _ \<Rightarrow> Inl TypeError
                | JObj _ \<Rightarrow> Inl TypeError
                | JStr v \<Rightarrow>
                    if map_of (dict_get STATUS_OPTIONS component []) v \<noteq> None then
                      (case map_of cs component of
                         None \<Rightarrow> Inl KeyError
                       | Some entry \<Rightarrow>
                           if status entry \<noteq> v then
                             Inr (store_modify component
                                    (\<lambda>entry. entry
                                       \<lparr>status := v,
                                        color := get_status_color component v,
                                        last_update := Some (now component)\<rparr>) cs,
                                  [Updated component v])
                           else Inr (cs, []))
                    else Inr (cs, [])
                | _ \<Rightarrow> Inr (cs, []))))"

text \<open>
  The loop.  The store is a global that the body changes in place, so what earlier
  iterations wrote stays when a later one raises: the result is the state reached and
  the exception, if any.
\<close>

fun fetch_loop ::
  "clock \<Rightarrow> json \<Rightarrow> string list \<Rightarrow> status_store \<times> log_line list \<Rightarrow>
   (status_store \<times> log_line list) \<times> error option" where
  "fetch_loop now data [] st = (st, None)"
| "fetch_loop now data (component # rest) (cs, out) =
     (case fetch_loop_body now data component cs of
        Inl e \<Rightarrow> ((cs, out), Some e)
      | Inr (cs', lines) \<Rightarrow> fetch_loop now data rest (cs', out @ lines))"

text \<open>
  What one call meets at its two awaits.  At \<open>session.get\<close>: the request fails, the
  task is cancelled, or there is a response with its status.  At \<open>response.json()\<close>
  (reached only on status 200): the body is rejected, the task is cancelled, or the
  body parses.
\<close>

datatype body = Malformed | Parsed json | BodyCancelled

datatype http_outcome = NetworkFailure | Response int body | Cancelled

definition components :: "string list" where
  "components = [''admin'', ''usermode'', ''server'']"

text \<open>
  The block under \<open>try\<close>: the value returned or what was raised, the store when the
  block is left and the lines printed.
\<close>

definition fetch_try ::
  "clock \<Rightarrow> http_outcome \<Rightarrow> status_store \<Rightarrow>
   (raised + bool) \<times> status_store \<times> log_line list" where
  "fetch_try now outcome cs =
     (case outcome of
        NetworkFailure \<Rightarrow> (Inl (Exception ClientError), cs, [])
      | Cancelled \<Rightarrow> (Inl CancelledError, cs, [])
      | Response code b \<Rightarrow>
          if code = 200 then
            (case b of
               Malformed \<Rightarrow> (Inl (Exception DecodeError), cs, [])
             | BodyCancelled \<Rightarrow> (Inl CancelledError, cs, [])
             | Parsed data \<Rightarrow>
                 (case fetch_loop now data components (cs, [Fetched data]) of
                    ((cs', out), None) \<Rightarrow> (Inr True, cs', out)
                  | ((cs', out), Some e) \<Rightarrow> (Inl (Exception e), cs', out)))
          else (Inr False, cs, [FetchFailedHTTP code]))"

text \<open>
  \<open>fetch_status_from_github\<close>: the flag returned or what leaves the function, the
  store after the call and the lines printed.  The handler \<open>except Exception as e\<close>
  prints and returns \<open>False\<close> for an exception of class \<open>Exception\<close>; it does not
  catch \<open>CancelledError\<close>.
\<close>

definition fetch_status_from_github ::
  "clock \<Rightarrow> http_outcome \<Rightarrow> status_store \<Rightarrow>
   (raised + bool) \<times> status_store \<times> log_line list" where
  "fetch_status_from_github now outcome cs =
     (case fetch_try now outcome cs of
        (Inl (Exception e), cs', out) \<Rightarrow> (Inr False, cs', out @ [FetchError e])
      | (Inl CancelledError, cs', out) \<Rightarrow> (Inl CancelledError, cs', out)
      | (Inr flag, cs', out) \<Rightarrow> (Inr flag, cs', out))"

section \<open>Status renderer\<close>

record embed_field =
  field_name :: string
  field_value :: string
  field_inline :: bool

text \<open>A reading of \<open>datetime.datetime.now()\<close>; the renderer only stores it.\<close>

type_synonym datetime = nat

record embed =
  embed_title :: string
  embed_description :: string
  embed_color :: int
  embed_timestamp :: datetime
  embed_fields :: "embed_field list"
  embed_footer :: string

text \<open>\<open>last_update or 'Never'\<close>: \<open>None\<close> and the empty string are both false.\<close>

definition or_never :: "string option \<Rightarrow> string" where
  "or_never t = (case t of None \<Rightarrow> ''Never'' | Some s \<Rightarrow> if s = [] then ''Never'' else s)"

text \<open>The text of one field: \<open>**Status:** {status}\n**Last Update:** {last_update or 'Never'}\<close>\<close>

definition status_value :: "component_status \<Rightarrow> string" where
  "status_value c =
     ''**Status:** '' @ status c @ [CHR 0x0A] @ ''**Last Update:** '' @ or_never (last_update c)"

text \<open>
  \<open>create_status_embed\<close> reads the global store and the clock and returns the embed; a
  key missing from the store would raise \<open>KeyError\<close>.  The colour given to the
  constructor (\<open>0x5865F2\<close>) is overwritten by \<open>embed.color = health_color\<close>.
\<close>

definition create_status_embed :: "status_store \<Rightarrow> datetime \<Rightarrow> error + embed" where
  "create_status_embed cs now =
     (case map_of cs ''admin'' of
        None \<Rightarrow> Inl KeyError
      | Some admin \<Rightarrow>
     (case map_of cs ''usermode'' of
        None \<Rightarrow> Inl KeyError
      | Some usermode \<Rightarrow>
     (case map_of cs ''server'' of
        None \<Rightarrow> Inl KeyError
      | Some server \<Rightarrow>
          let all_online = list_all (\<lambda>s. status s \<in> set [''Online'']) (map snd cs);
              any_offline = list_ex (\<lambda>s. status s = ''Offline'') (map snd cs);
              (health, health_color) =
                (if all_online then (check_mark @ '' All Systems Operational'', 0x57F287)
                 else if any_offline then (red_circle @ '' Critical Issues Detected'', 0xED4245)
                 else (warning_sign @ '' Some Systems Degraded'', 0xFEE75C))
          in Inr
            \<lparr>embed_title = desktop_computer @ '' Sysware System Status'',
             embed_description = ''Real-time system component status monitoring'',
             embed_color = health_color,
             embed_timestamp = now,
             embed_fields =
               [\<lparr>field_name = color admin @ '' Admin Status'',
                 field_value = status_value admin, field_inline = False\<rparr>,
                \<lparr>field_name = color usermode @ '' User Mode'',
                 field_value = status_value usermode, field_inline = False\<rparr>,
                \<lparr>field_name = color server @ '' Server'',
                 field_value = status_value server, field_inline = False\<rparr>],
             embed_footer = health @ '' '' @ bullet @ '' Auto-updates every 30s''\<rparr>)))"

section \<open>Message publisher\<close>

text \<open>
  The channel \<open>bot.get_channel(CHANNEL_ID)\<close> as the list of its messages by identifier,
  each with the embed it shows, if any.  The calls made on the platform are recorded.
\<close>

type_synonym channel = "(int \<times> embed option) list"

datatype platform_call =
    FetchMessage int           \<comment> \<open>\<open>channel.fetch_message(id)\<close>\<close>
  | EditMessage int embed      \<comment> \<open>\<open>message.edit(embed=embed)\<close>\<close>
  | SendEmbed embed            \<comment> \<open>\<open>ctx.send(embed=embed)\<close>\<close>
  | SendText int               \<comment> \<open>\<open>ctx.send(f"... STATUS_MESSAGE_ID={message.id}")\<close>\<close>

text \<open>
  A call on the platform raises the fault the platform answers with, if it answers
  with one; \<open>fetch_message\<close> raises \<open>NotFound\<close> for an identifier with no message.
\<close>

definition fetch_message :: "error option \<Rightarrow> channel \<Rightarrow> int \<Rightarrow> error + embed option" where
  "fetch_message fault ch message_id =
     (case fault of
        Some e \<Rightarrow> Inl e
      | None \<Rightarrow> (case map_of ch message_id of None \<Rightarrow> Inl NotFound | Some m \<Rightarrow> Inr m))"

definition message_edit :: "error option \<Rightarrow> channel \<Rightarrow> int \<Rightarrow> embed \<Rightarrow> error + channel" where
  "message_edit fault ch message_id e =
     (case fault of
        Some err \<Rightarrow> Inl err
      | None \<Rightarrow> Inr (map (\<lambda>(k, m). if k = message_id then (k, Some e) else (k, m)) ch))"

text \<open>The line printed by the handlers \<open>except discord.NotFound\<close> and \<open>except Exception\<close>.\<close>

definition edit_handler :: "int \<Rightarrow> error \<Rightarrow> log_line" where
  "edit_handler message_id e = (if e = NotFound then MessageNotFound message_id else EditError e)"

text \<open>
  \<open>update_status_message\<close>: the channel after the call, the platform calls made and
  the lines printed.  \<open>create_status_embed\<close> is called outside the \<open>try\<close>, so its
  exception would leave the function.  The outer handler of the source (the line
  \<^const>\<open>UpdateError\<close>) is never reached: the inner ones catch every exception of the
  two calls.
\<close>

definition update_status_message ::
  "error option \<Rightarrow> error option \<Rightarrow> datetime \<Rightarrow> status_store \<Rightarrow> int \<Rightarrow> channel option \<Rightarrow>
   error + (channel option \<times> platform_call list \<times> log_line list)" where
  "update_status_message fetch_fault edit_fault now cs status_message_id chan =
     (case chan of
        None \<Rightarrow> Inr (None, [], [ChannelNotFound])
      | Some ch \<Rightarrow>
          (case create_status_embed cs now of
             Inl e \<Rightarrow> Inl e
           | Inr emb \<Rightarrow>
               if status_message_id \<noteq> 0 then
                 (case fetch_message fetch_fault ch status_message_id of
                    Inl e \<Rightarrow>
                      Inr (Some ch, [FetchMessage status_message_id],
                           [edit_handler status_message_id e])
                  | Inr message \<Rightarrow>
                      (case message_edit edit_fault ch status_message_id emb of
                         Inl e \<Rightarrow>
                           Inr (Some ch,
                                [FetchMessage status_message_id,
                                 EditMessage status_message_id emb],
                                [edit_handler status_message_id e])
                       | Inr ch' \<Rightarrow>
                           Inr (Some ch',
                                [FetchMessage status_message_id,
                                 EditMessage status_message_id emb],
                                [MessageUpdated status_message_id])))
               else Inr (Some ch, [], [NoMessageId])))"

text \<open>
  The command \<open>setstatus\<close> (\<open>create_initial_status\<close>), once the permission check has
  passed and when both sends succeed: the embed goes out as a new message, whose
  identifier \<open>new_id\<close> becomes \<open>status_message_id\<close>, and a second message reports it.
  The result is the channel of the command, the new \<open>status_message_id\<close> and the calls.
\<close>

definition create_initial_status ::
  "datetime \<Rightarrow> status_store \<Rightarrow> int \<Rightarrow> int \<Rightarrow> channel \<Rightarrow> error + (channel \<times> int \<times> platform_call list)" where
  "create_initial_status now cs new_id reply_id ctx =
     (case create_status_embed cs now of
        Inl e \<Rightarrow> Inl e
      | Inr emb \<Rightarrow>
          Inr (ctx @ [(new_id, Some emb), (reply_id, None)], new_id,
               [SendEmbed emb, SendText new_id]))"

section \<open>Reachable stores and the properties stated of them\<close>

text \<open>The store after a sequence of fetches, from process start.\<close>

definition run_fetches :: "(clock \<times> http_outcome) list \<Rightarrow> status_store" where
  "run_fetches inputs =
     foldl (\<lambda>cs (now, outcome). fst (snd (fetch_status_from_github now outcome cs)))
       current_status inputs"

text \<open>A clock that reads the same second for every component.\<close>

definition clock_noon :: clock where
  "clock_noon component = ''2025-01-01 12:00:00''"

definition clock_later :: clock where
  "clock_later component = ''2025-01-01 12:00:30''"

text \<open>The allowed values of a component: the keys of its table.\<close>

definition allowed :: "string \<Rightarrow> string list" where
  "allowed component = map fst (dict_get STATUS_OPTIONS component [])"

text \<open>The store has the three keys of the source, in its order.\<close>

definition store_keys_ok :: "status_store \<Rightarrow> bool" where
  "store_keys_ok cs = (map fst cs = components)"

text \<open>Every entry of the store shows the glyph that the table gives its value.\<close>

definition store_inv :: "status_store \<Rightarrow> bool" where
  "store_inv cs = (\<forall>(c, e) \<in> set cs. map_of (dict_get STATUS_OPTIONS c []) (status e) = Some (color e))"

text \<open>A value that cannot be hashed: a list or a dict.\<close>

fun unhashable :: "json \<Rightarrow> bool" where
  "unhashable (JArr _) = True"
| "unhashable (JObj _) = True"
| "unhashable _ = False"



section \<open>Shape of the store\<close>

lemma store_keys_lookup:
  assumes "store_keys_ok cs"
  shows "\<exists>a u s. cs = [(''admin'', a), (''usermode'', u), (''server'', s)]"
proof -
  from assms have m: "map fst cs = [''admin'', ''usermode'', ''server'']"
    by (simp add: store_keys_ok_def components_def)
  then obtain p1 p2 p3 where cs: "cs = [p1, p2, p3]"
    by (auto simp: map_eq_Cons_conv)
  with m have "fst p1 = ''admin''" "fst p2 = ''usermode''" "fst p3 = ''server''"
    by simp_all
  with cs have "cs = [(''admin'', snd p1), (''usermode'', snd p2), (''server'', snd p3)]"
    by (metis prod.collapse)
  then show ?thesis by blast
qed

lemma current_status_keys: "store_keys_ok current_status"
  by (simp add: store_keys_ok_def current_status_def components_def)

section \<open>The aggregate health of the renderer\<close>

text \<open>
  C2.  On a store with the three components the renderer returns an embed whose footer
  and accent colour follow the rules in this order: every stored value is \<open>Online\<close>:
  "All Systems Operational", \<open>0x57F287\<close>; else some stored value is \<open>Offline\<close>:
  "Critical Issues Detected", \<open>0xED4245\<close>; else "Some Systems Degraded", \<open>0xFEE75C\<close>.
  So one \<open>Offline\<close> component gives Critical whatever the others are, and a component
  in an intermediate state with none \<open>Offline\<close> gives Degraded.
\<close>

theorem aggregate_health_classification:
  assumes "store_keys_ok cs"
  shows "\<exists>e. create_status_embed cs now = Inr e \<and>
           (if \<forall>c \<in> set (map snd cs). status c = ''Online'' then
              embed_footer e =
                check_mark @ '' All Systems Operational '' @ bullet @ '' Auto-updates every 30s'' \<and>
              embed_color e = 0x57F287
            else if \<exists>c \<in> set (map snd cs). status c = ''Offline'' then
              embed_footer e =
                red_circle @ '' Critical Issues Detected '' @ bullet @ '' Auto-updates every 30s'' \<and>
              embed_color e = 0xED4245
            else
              embed_footer e =
                warning_sign @ '' Some Systems Degraded '' @ bullet @ '' Auto-updates every 30s'' \<and>
              embed_color e = 0xFEE75C)"
proof -
  from store_keys_lookup [OF assms] obtain a u s
    where cs: "cs = [(''admin'', a), (''usermode'', u), (''server'', s)]" by blast
  show ?thesis
    unfolding cs by (simp add: create_status_embed_def)
qed

theorem aggregate_health_classification_witness:
  "store_keys_ok current_status \<and>
   (\<exists>e. create_status_embed current_status 0 = Inr e \<and>
      embed_footer e =
        red_circle @ '' Critical Issues Detected '' @ bullet @ '' Auto-updates every 30s'' \<and>
      embed_color e = 0xED4245)"
proof -
  have k: "store_keys_ok current_status"
    by (simp add: store_keys_ok_def current_status_def components_def)
  from aggregate_health_classification [OF k, of 0] k show ?thesis
    by (simp add: current_status_def)
qed

section \<open>The loop of the fetcher\<close>

lemma map_of_store_modify:
  "map_of (store_modify c f cs) k = (if k = c then map_option f (map_of cs c) else map_of cs k)"
  by (induction cs) (auto simp: store_modify_def)

lemma keys_store_modify: "map fst (store_modify c f cs) = map fst cs"
  by (induction cs) (auto simp: store_modify_def)

lemma body_result:
  "fetch_loop_body now data c cs = Inr (cs', l) \<Longrightarrow>
     (cs' = cs \<and> l = []) \<or>
     (\<exists>v kvs e. data = JObj kvs \<and> map_of kvs c = Some (JStr v) \<and>
        map_of (dict_get STATUS_OPTIONS c []) v \<noteq> None \<and>
        map_of cs c = Some e \<and> status e \<noteq> v \<and>
        cs' = store_modify c
                (\<lambda>entry. entry\<lparr>status := v, color := get_status_color c v,
                                 last_update := Some (now c)\<rparr>) cs \<and>
        l = [Updated c v])"
  by (auto simp: fetch_loop_body_def py_in_def py_getitem_def
           split: json.splits option.splits if_splits sum.splits bool.splits)

lemma body_raise:
  "fetch_loop_body now data c cs = Inl e \<Longrightarrow>
     (e = TypeError \<and> (\<forall>kvs. data \<noteq> JObj kvs)) \<or>
     (e = TypeError \<and> (\<exists>kvs v. data = JObj kvs \<and> map_of kvs c = Some v \<and> unhashable v)) \<or>
     (e = KeyError \<and> map_of cs c = None)"
  by (auto simp: fetch_loop_body_def py_in_def py_getitem_def
           split: json.splits option.splits if_splits sum.splits bool.splits)

lemma body_nonobject:
  "\<forall>kvs. data \<noteq> JObj kvs \<Longrightarrow> fetch_loop_body now data c cs = Inr (cs', l) \<Longrightarrow> cs' = cs \<and> l = []"
  by (auto dest: body_result)


lemma loop_frame:
  "fetch_loop now data cl (cs, out) = ((cs', out'), r) \<Longrightarrow> k \<notin> set cl \<Longrightarrow>
     map_of cs' k = map_of cs k"
proof (induction cl arbitrary: cs out)
  case Nil
  then show ?case by simp
next
  case (Cons x rest)
  show ?case
  proof (cases "fetch_loop_body now data x cs")
    case (Inl e)
    with Cons.prems show ?thesis by simp
  next
    case (Inr p)
    obtain cs1 l where p: "p = (cs1, l)" by (cases p)
    from Inr p Cons.prems have rest: "fetch_loop now data rest (cs1, out @ l) = ((cs', out'), r)"
      by simp
    from Cons.prems have "k \<noteq> x" "k \<notin> set rest" by auto
    from body_result [OF Inr [unfolded p]] \<open>k \<noteq> x\<close> have "map_of cs1 k = map_of cs k"
      by (auto simp: map_of_store_modify)
    with Cons.IH [OF rest \<open>k \<notin> set rest\<close>] show ?thesis by simp
  qed
qed

lemma loop_keys:
  "fetch_loop now data cl (cs, out) = ((cs', out'), r) \<Longrightarrow> map fst cs' = map fst cs"
proof (induction cl arbitrary: cs out)
  case Nil
  then show ?case by simp
next
  case (Cons x rest)
  show ?case
  proof (cases "fetch_loop_body now data x cs")
    case (Inl e)
    with Cons.prems show ?thesis by simp
  next
    case (Inr p)
    obtain cs1 l where p: "p = (cs1, l)" by (cases p)
    from Inr p Cons.prems have rest: "fetch_loop now data rest (cs1, out @ l) = ((cs', out'), r)"
      by simp
    from body_result [OF Inr [unfolded p]] have "map fst cs1 = map fst cs"
      by (auto simp: keys_store_modify)
    with Cons.IH [OF rest] show ?thesis by simp
  qed
qed

lemma loop_log:
  "fetch_loop now data cl (cs, out) = ((cs', out'), r) \<Longrightarrow>
     \<exists>l. out' = out @ l \<and> (\<forall>x \<in> set l. \<exists>k \<in> set cl. \<exists>v. x = Updated k v)"
proof (induction cl arbitrary: cs out)
  case Nil
  then show ?case by simp
next
  case (Cons x rest)
  show ?case
  proof (cases "fetch_loop_body now data x cs")
    case (Inl e)
    with Cons.prems show ?thesis by simp
  next
    case (Inr p)
    obtain cs1 l where p: "p = (cs1, l)" by (cases p)
    from Inr p Cons.prems have rest: "fetch_loop now data rest (cs1, out @ l) = ((cs', out'), r)"
      by simp
    from body_result [OF Inr [unfolded p]] have l: "l = [] \<or> (\<exists>v. l = [Updated x v])"
      by auto
    from Cons.IH [OF rest] obtain l' where
      l': "out' = (out @ l) @ l'" "\<forall>y \<in> set l'. \<exists>k \<in> set rest. \<exists>v. y = Updated k v"
      by blast
    from l l' have "out' = out @ (l @ l')"
      "\<forall>y \<in> set (l @ l'). \<exists>k \<in> set (x # rest). \<exists>v. y = Updated k v"
      by auto
    then show ?thesis by blast
  qed
qed

lemma loop_nonobject:
  "fetch_loop now data cl (cs, out) = ((cs', out'), r) \<Longrightarrow> \<forall>kvs. data \<noteq> JObj kvs \<Longrightarrow>
     cs' = cs \<and> out' = out"
proof (induction cl arbitrary: cs out)
  case Nil
  then show ?case by simp
next
  case (Cons x rest)
  show ?case
  proof (cases "fetch_loop_body now data x cs")
    case (Inl e)
    with Cons.prems show ?thesis by simp
  next
    case (Inr p)
    obtain cs1 l where p: "p = (cs1, l)" by (cases p)
    from body_nonobject [OF Cons.prems(2) Inr [unfolded p]] have "cs1 = cs" "l = []" by simp_all
    with Inr p Cons.prems(1) have "fetch_loop now data rest (cs, out) = ((cs', out'), r)"
      by simp
    from Cons.IH [OF this Cons.prems(2)] show ?thesis .
  qed
qed

lemma loop_raise:
  "fetch_loop now data cl (cs, out) = ((cs', out'), Some e) \<Longrightarrow>
   \<forall>c \<in> set cl. map_of cs c \<noteq> None \<Longrightarrow>
     e = TypeError \<and>
     ((\<forall>kvs. data \<noteq> JObj kvs) \<or>
      (\<exists>kvs c v. data = JObj kvs \<and> c \<in> set cl \<and> map_of kvs c = Some v \<and> unhashable v))"
proof (induction cl arbitrary: cs out)
  case Nil
  then show ?case by simp
next
  case (Cons x rest)
  show ?case
  proof (cases "fetch_loop_body now data x cs")
    case (Inl e')
    with Cons.prems have "e' = e" by simp
    from body_raise [OF Inl] Cons.prems(2) \<open>e' = e\<close> show ?thesis by auto
  next
    case (Inr p)
    obtain cs1 l where p: "p = (cs1, l)" by (cases p)
    from Inr p Cons.prems have rest: "fetch_loop now data rest (cs1, out @ l) = ((cs', out'), Some e)"
      by simp
    from body_result [OF Inr [unfolded p]] have "map fst cs1 = map fst cs"
      by (auto simp: keys_store_modify)
    then have "\<And>c. (map_of cs1 c = None) = (map_of cs c = None)"
      by (metis map_of_eq_None_iff set_map)
    with Cons.prems(2) have "\<forall>c \<in> set rest. map_of cs1 c \<noteq> None" by simp
    from Cons.IH [OF rest this] show ?thesis by auto
  qed
qed


lemma body_unhashable:
  "map_of kvs c = Some v \<Longrightarrow> unhashable v \<Longrightarrow>
     fetch_loop_body now (JObj kvs) c cs = Inl TypeError"
  by (cases v) (simp_all add: fetch_loop_body_def py_in_def py_getitem_def)

lemma body_update:
  "map_of kvs c = Some (JStr v) \<Longrightarrow> map_of (dict_get STATUS_OPTIONS c []) v \<noteq> None \<Longrightarrow>
   map_of cs c = Some e \<Longrightarrow> status e \<noteq> v \<Longrightarrow>
     fetch_loop_body now (JObj kvs) c cs =
       Inr (store_modify c
              (\<lambda>entry. entry\<lparr>status := v, color := get_status_color c v,
                               last_update := Some (now c)\<rparr>) cs,
            [Updated c v])"
  by (auto simp: fetch_loop_body_def py_in_def py_getitem_def)

lemma body_no_raise:
  "map_of cs c \<noteq> None \<Longrightarrow> \<forall>v. map_of kvs c = Some v \<longrightarrow> \<not> unhashable v \<Longrightarrow>
     \<exists>p. fetch_loop_body now (JObj kvs) c cs = Inr p"
proof (cases "fetch_loop_body now (JObj kvs) c cs")
  case (Inl e)
  assume "map_of cs c \<noteq> None" "\<forall>v. map_of kvs c = Some v \<longrightarrow> \<not> unhashable v"
  with body_raise [OF Inl] show ?thesis by auto
next
  case (Inr p)
  then show ?thesis by blast
qed

lemma count_list_no_updated:
  "\<forall>x \<in> set l. \<exists>k \<in> set cl. \<exists>v. x = Updated k v \<Longrightarrow> c \<notin> set cl \<Longrightarrow>
     count_list l (Updated c v) = 0"
  by (induction l) auto

lemma loop_updates:
  "fetch_loop now (JObj kvs) cl (cs, out) = ((cs', out'), r) \<Longrightarrow>
   distinct cl \<Longrightarrow> c \<in> set cl \<Longrightarrow> \<forall>k \<in> set cl. map_of cs k \<noteq> None \<Longrightarrow>
   \<forall>k \<in> set (takeWhile (\<lambda>x. x \<noteq> c) cl). \<forall>w. map_of kvs k = Some w \<longrightarrow> \<not> unhashable w \<Longrightarrow>
   map_of kvs c = Some (JStr v) \<Longrightarrow> map_of (dict_get STATUS_OPTIONS c []) v \<noteq> None \<Longrightarrow>
   map_of cs c = Some e \<Longrightarrow> status e \<noteq> v \<Longrightarrow>
     map_of cs' c =
       Some (e\<lparr>status := v, color := get_status_color c v, last_update := Some (now c)\<rparr>) \<and>
     (\<exists>l. out' = out @ l \<and> count_list l (Updated c v) = 1 \<and>
          (\<forall>w. Updated c w \<in> set l \<longrightarrow> w = v))"
proof (induction cl arbitrary: cs out)
  case Nil
  then show ?case by simp
next
  case (Cons x rest)
  show ?case
  proof (cases "x = c")
    case True
    let ?cs1 = "store_modify c
      (\<lambda>entry. entry\<lparr>status := v, color := get_status_color c v,
                       last_update := Some (now c)\<rparr>) cs"
    from body_update [OF Cons.prems(6,7,8,9)] True Cons.prems(1)
    have rest: "fetch_loop now (JObj kvs) rest (?cs1, out @ [Updated c v]) = ((cs', out'), r)"
      by simp
    from Cons.prems(2) True have c: "c \<notin> set rest" by simp
    from loop_frame [OF rest c] Cons.prems(8)
    have 1: "map_of cs' c =
       Some (e\<lparr>status := v, color := get_status_color c v, last_update := Some (now c)\<rparr>)"
      by (simp add: map_of_store_modify)
    from loop_log [OF rest] obtain l where
      l: "out' = (out @ [Updated c v]) @ l" "\<forall>y \<in> set l. \<exists>k \<in> set rest. \<exists>v. y = Updated k v"
      by blast
    from l(2) c have 2: "\<And>w. Updated c w \<notin> set l" by auto
    from count_list_no_updated [OF l(2) c] have 3: "count_list l (Updated c v) = 0" .
    from l(1) 2 3 have "out' = out @ (Updated c v # l) \<and>
        count_list (Updated c v # l) (Updated c v) = 1 \<and>
        (\<forall>w. Updated c w \<in> set (Updated c v # l) \<longrightarrow> w = v)"
      by simp
    with 1 show ?thesis by blast
  next
    case False
    from Cons.prems(5) False
    have nx: "\<forall>w. map_of kvs x = Some w \<longrightarrow> \<not> unhashable w" by simp
    from Cons.prems(4) have "map_of cs x \<noteq> None" by simp
    from body_no_raise [OF this nx] obtain p
      where Inr: "fetch_loop_body now (JObj kvs) x cs = Inr p" by blast
    obtain cs1 l where p: "p = (cs1, l)" by (cases p)
    from Inr p Cons.prems(1)
    have rest: "fetch_loop now (JObj kvs) rest (cs1, out @ l) = ((cs', out'), r)"
      by simp
    from body_result [OF Inr [unfolded p]] False
    have f: "map_of cs1 c = map_of cs c" "map fst cs1 = map fst cs"
      "l = [] \<or> (\<exists>w. l = [Updated x w])"
      by (auto simp: map_of_store_modify keys_store_modify)
    from f(2) have "\<And>k. (map_of cs1 k = None) = (map_of cs k = None)"
      by (metis map_of_eq_None_iff set_map)
    with Cons.prems(4) have pres: "\<forall>k \<in> set rest. map_of cs1 k \<noteq> None" by simp
    from Cons.prems(2) have d: "distinct rest" by simp
    from Cons.prems(3) False have cr: "c \<in> set rest" by simp
    from Cons.prems(5) False
    have tw: "\<forall>k \<in> set (takeWhile (\<lambda>x. x \<noteq> c) rest). \<forall>w. map_of kvs k = Some w \<longrightarrow> \<not> unhashable w"
      by simp
    from f(1) Cons.prems(8) have e1: "map_of cs1 c = Some e" by simp
    from Cons.IH [OF rest d cr pres tw Cons.prems(6,7) e1 Cons.prems(9)]
    obtain l' where l': "map_of cs' c =
       Some (e\<lparr>status := v, color := get_status_color c v, last_update := Some (now c)\<rparr>)"
      "out' = (out @ l) @ l'" "count_list l' (Updated c v) = 1"
      "\<forall>w. Updated c w \<in> set l' \<longrightarrow> w = v"
      by blast
    from f(3) False l'(2,3,4) have "out' = out @ (l @ l') \<and>
        count_list (l @ l') (Updated c v) = 1 \<and>
        (\<forall>w. Updated c w \<in> set (l @ l') \<longrightarrow> w = v)"
      by auto
    with l'(1) show ?thesis by blast
  qed
qed

lemma body_settled:
  "fetch_loop_body now data c cs = Inr (cs1, l) \<Longrightarrow> map_of cs2 c = map_of cs1 c \<Longrightarrow>
     fetch_loop_body now' data c cs2 = Inr (cs2, [])"
  by (auto simp: fetch_loop_body_def py_in_def py_getitem_def map_of_store_modify
           split: json.splits option.splits if_splits sum.splits bool.splits)

lemma body_raise_again:
  "fetch_loop_body now data c cs = Inl e \<Longrightarrow> map_of cs2 c = map_of cs c \<Longrightarrow>
     fetch_loop_body now' data c cs2 = Inl e"
  by (auto simp: fetch_loop_body_def py_in_def py_getitem_def
           split: json.splits option.splits if_splits sum.splits bool.splits)

lemma loop_settled:
  "fetch_loop now data cl (cs, out) = ((cs1, out1), r) \<Longrightarrow> distinct cl \<Longrightarrow>
   \<forall>k \<in> set cl. map_of cs2 k = map_of cs1 k \<Longrightarrow>
     fetch_loop now' data cl (cs2, out2) = ((cs2, out2), r)"
proof (induction cl arbitrary: cs out)
  case Nil
  then show ?case by simp
next
  case (Cons x rest)
  show ?case
  proof (cases "fetch_loop_body now data x cs")
    case (Inl e)
    with Cons.prems(1) have eq: "cs1 = cs" "r = Some e" by simp_all
    from Cons.prems(3) eq have "map_of cs2 x = map_of cs x" by simp
    from body_raise_again [OF Inl this] eq show ?thesis by simp
  next
    case (Inr p)
    obtain csx l where p: "p = (csx, l)" by (cases p)
    from Inr p Cons.prems(1)
    have rest: "fetch_loop now data rest (csx, out @ l) = ((cs1, out1), r)" by simp
    from Cons.prems(2) have x: "x \<notin> set rest" and d: "distinct rest" by simp_all
    from loop_frame [OF rest x] Cons.prems(3) have "map_of cs2 x = map_of csx x" by simp
    from body_settled [OF Inr [unfolded p] this]
    have b: "fetch_loop_body now' data x cs2 = Inr (cs2, [])" .
    from Cons.prems(3) have "\<forall>k \<in> set rest. map_of cs2 k = map_of cs1 k" by simp
    from Cons.IH [OF rest d this] b show ?thesis by simp
  qed
qed

lemma components_distinct: "distinct components"
  by (simp add: components_def)

lemma allowed_iff: "v \<in> set (allowed c) \<longleftrightarrow> map_of (dict_get STATUS_OPTIONS c []) v \<noteq> None"
  by (simp add: allowed_def map_of_eq_None_iff)

lemma store_keys_present: "store_keys_ok cs \<Longrightarrow> \<forall>c \<in> set components. map_of cs c \<noteq> None"
  by (metis map_of_eq_None_iff set_map store_keys_ok_def)

lemma loop_keeps:
  "fetch_loop now (JObj kvs) cl (cs, out) = ((cs', out'), r) \<Longrightarrow>
   map_of kvs k = None \<or>
   (\<exists>w. map_of kvs k = Some w \<and> (\<forall>v. w = JStr v \<longrightarrow> v \<notin> set (allowed k))) \<or>
   (\<exists>v e. map_of kvs k = Some (JStr v) \<and> map_of cs k = Some e \<and> status e = v) \<Longrightarrow>
     map_of cs' k = map_of cs k"
proof (induction cl arbitrary: cs out)
  case Nil
  then show ?case by simp
next
  case (Cons x rest)
  show ?case
  proof (cases "fetch_loop_body now (JObj kvs) x cs")
    case (Inl e)
    with Cons.prems show ?thesis by simp
  next
    case (Inr p)
    obtain cs1 l where p: "p = (cs1, l)" by (cases p)
    from Inr p Cons.prems(1)
    have rest: "fetch_loop now (JObj kvs) rest (cs1, out @ l) = ((cs', out'), r)" by simp
    from body_result [OF Inr [unfolded p]] Cons.prems(2)
    have same: "map_of cs1 k = map_of cs k"
      by (auto simp: map_of_store_modify allowed_iff)
    with Cons.prems(2)
    have "map_of kvs k = None \<or>
      (\<exists>w. map_of kvs k = Some w \<and> (\<forall>v. w = JStr v \<longrightarrow> v \<notin> set (allowed k))) \<or>
      (\<exists>v e. map_of kvs k = Some (JStr v) \<and> map_of cs1 k = Some e \<and> status e = v)"
      by simp
    from Cons.IH [OF rest this] same show ?thesis by simp
  qed
qed

lemma fetch_parsed:
  "fetch_status_from_github now (Response 200 (Parsed data)) cs = (ok, cs', out) \<Longrightarrow>
     \<exists>out' r. fetch_loop now data components (cs, [Fetched data]) = ((cs', out'), r) \<and>
       ok = Inr (r = None) \<and> out = out' @ (case r of None \<Rightarrow> [] | Some e \<Rightarrow> [FetchError e])"
proof -
  assume f: "fetch_status_from_github now (Response 200 (Parsed data)) cs = (ok, cs', out)"
  obtain cs1 out1 r where
    loop: "fetch_loop now data components (cs, [Fetched data]) = ((cs1, out1), r)"
    by (metis prod.exhaust)
  from f loop show ?thesis
    by (cases r) (simp_all add: fetch_status_from_github_def fetch_try_def)
qed

lemma table_glyph:
  "map_of (dict_get STATUS_OPTIONS c []) v \<noteq> None \<Longrightarrow>
     map_of (dict_get STATUS_OPTIONS c []) v = Some (get_status_color c v)"
  by (auto simp: get_status_color_def dict_get_def [of _ v])

section \<open>Evaluation on concrete inputs\<close>

lemmas fetch_eval =
  fetch_status_from_github_def fetch_try_def fetch_loop_body_def py_in_def py_getitem_def
  components_def
  current_status_def STATUS_OPTIONS_def dict_get_def get_status_color_def store_modify_def
  clock_noon_def clock_later_def

section \<open>What one fetch does to the store\<close>

text \<open>
  Where no recognized key before it (in the order admin, usermode, server) holds a
  JSON array or object, a recognized key whose value is allowed and differs from the
  stored one is updated: value, glyph of the table, timestamp, and one printed line.
  A key that is not recognized, or absent, or whose value is outside the allowed set
  or equal to the stored one, keeps its entry, on every body.
\<close>

lemma fetch_updates_changed_components:
  assumes "store_keys_ok cs"
    and "fetch_status_from_github now (Response 200 (Parsed (JObj kvs))) cs = (ok, cs', out)"
  shows "(\<forall>c e v. c \<in> set components \<and> map_of kvs c = Some (JStr v) \<and> v \<in> set (allowed c) \<and>
            map_of cs c = Some e \<and> status e \<noteq> v \<and>
            (\<forall>k \<in> set (takeWhile (\<lambda>x. x \<noteq> c) components).
               \<forall>w. map_of kvs k = Some w \<longrightarrow> \<not> unhashable w) \<longrightarrow>
              map_of cs' c =
                Some (e\<lparr>status := v, color := get_status_color c v,
                        last_update := Some (now c)\<rparr>) \<and>
              map_of (dict_get STATUS_OPTIONS c []) v = Some (get_status_color c v) \<and>
              count_list out (Updated c v) = 1 \<and>
              (\<forall>w. Updated c w \<in> set out \<longrightarrow> w = v)) \<and>
         (\<forall>k. k \<notin> set components \<or> map_of kvs k = None \<or>
              (\<exists>w. map_of kvs k = Some w \<and> (\<forall>v. w = JStr v \<longrightarrow> v \<notin> set (allowed k))) \<or>
              (\<exists>v e. map_of kvs k = Some (JStr v) \<and> map_of cs k = Some e \<and> status e = v) \<longrightarrow>
              map_of cs' k = map_of cs k)"
proof -
  from fetch_parsed [OF assms(2)] obtain out' r where
    loop: "fetch_loop now (JObj kvs) components (cs, [Fetched (JObj kvs)]) = ((cs', out'), r)"
    and out: "out = out' @ (case r of None \<Rightarrow> [] | Some e \<Rightarrow> [FetchError e])"
    by blast
  have a: "map_of cs' c =
         Some (e\<lparr>status := v, color := get_status_color c v, last_update := Some (now c)\<rparr>) \<and>
       map_of (dict_get STATUS_OPTIONS c []) v = Some (get_status_color c v) \<and>
       count_list out (Updated c v) = 1 \<and> (\<forall>w. Updated c w \<in> set out \<longrightarrow> w = v)"
    if h: "c \<in> set components" "map_of kvs c = Some (JStr v)" "v \<in> set (allowed c)"
      "map_of cs c = Some e" "status e \<noteq> v"
      "\<forall>k \<in> set (takeWhile (\<lambda>x. x \<noteq> c) components).
         \<forall>w. map_of kvs k = Some w \<longrightarrow> \<not> unhashable w"
    for c e v
  proof -
    from h(3) have al: "map_of (dict_get STATUS_OPTIONS c []) v \<noteq> None"
      by (simp add: allowed_iff)
    from loop_updates [OF loop components_distinct h(1) store_keys_present [OF assms(1)]
        h(6) h(2) al h(4) h(5)]
    obtain l where l: "map_of cs' c =
         Some (e\<lparr>status := v, color := get_status_color c v, last_update := Some (now c)\<rparr>)"
      "out' = [Fetched (JObj kvs)] @ l" "count_list l (Updated c v) = 1"
      "\<forall>w. Updated c w \<in> set l \<longrightarrow> w = v"
      by blast
    from out l(2,3,4) have "count_list out (Updated c v) = 1 \<and>
        (\<forall>w. Updated c w \<in> set out \<longrightarrow> w = v)"
      by (auto split: option.splits)
    with l(1) table_glyph [OF al] show ?thesis by simp
  qed
  have b: "map_of cs' k = map_of cs k"
    if h: "k \<notin> set components \<or> map_of kvs k = None \<or>
        (\<exists>w. map_of kvs k = Some w \<and> (\<forall>v. w = JStr v \<longrightarrow> v \<notin> set (allowed k))) \<or>
        (\<exists>v e. map_of kvs k = Some (JStr v) \<and> map_of cs k = Some e \<and> status e = v)"
    for k
  proof (cases "k \<in> set components")
    case False
    from loop_frame [OF loop False] show ?thesis .
  next
    case True
    with h loop_keeps [OF loop] show ?thesis by blast
  qed
  from a b show ?thesis by blast
qed

text \<open>
  C1.  The code sets out to treat each recognized key on its own: it tests the value
  against the table of the component and skips the key when the test fails.  A value
  that cannot be hashed makes that test raise instead of fail, and the keys after it
  are then not processed.  With the body \<open>{"admin": [], "usermode": "Online"}\<close> and the
  store at process start, \<open>Online\<close> is allowed for \<open>usermode\<close> and differs from the stored
  \<open>Offline\<close>, yet the call fails and the store is as before.  With \<open>null\<close> in place of
  the list (a value outside the allowed set as well) \<open>admin\<close> is skipped and \<open>usermode\<close>
  is updated, as the claim says.
\<close>

theorem fetch_unhashable_skips_later_key:
  "''Online'' \<in> set (allowed ''usermode'') \<and>
   fetch_status_from_github clock_noon
     (Response 200 (Parsed (JObj [(''admin'', JArr []), (''usermode'', JStr ''Online'')])))
     current_status =
   (Inr False, current_status,
    [Fetched (JObj [(''admin'', JArr []), (''usermode'', JStr ''Online'')]),
     FetchError TypeError]) \<and>
   fetch_status_from_github clock_noon
     (Response 200 (Parsed (JObj [(''admin'', JNull), (''usermode'', JStr ''Online'')])))
     current_status =
   (Inr True,
    [(''admin'', \<lparr>status = ''Offline'', last_update = None, color = red_circle\<rparr>),
     (''usermode'', \<lparr>status = ''Online'', last_update = Some ''2025-01-01 12:00:00'',
                     color = green_circle\<rparr>),
     (''server'', \<lparr>status = ''Offline'', last_update = None, color = red_circle\<rparr>)],
    [Fetched (JObj [(''admin'', JNull), (''usermode'', JStr ''Online'')]),
     Updated ''usermode'' ''Online''])"
  by (simp add: fetch_eval allowed_def)

section \<open>A fetch that fails\<close>

text \<open>
  A call that returns \<open>False\<close> leaves the store exactly as it was on every path but
  one: a non-200 status, a failed request, a rejected body, a parsed body that is not
  an object, and an object with no list or dict under a recognized key.
\<close>

lemma failed_fetch_keeps_store:
  assumes "store_keys_ok cs"
    and "fetch_status_from_github now outcome cs = (Inr False, cs', out)"
    and "\<forall>kvs. outcome = Response 200 (Parsed (JObj kvs)) \<longrightarrow>
           (\<forall>c \<in> set components. \<forall>v. map_of kvs c = Some v \<longrightarrow> \<not> unhashable v)"
  shows "cs' = cs"
proof (cases "\<exists>data. outcome = Response 200 (Parsed data)")
  case False
  with assms(2) show ?thesis
    by (auto simp: fetch_status_from_github_def fetch_try_def
             split: http_outcome.splits body.splits if_splits)
next
  case True
  then obtain data where o: "outcome = Response 200 (Parsed data)" by blast
  from fetch_parsed [OF assms(2) [unfolded o]] obtain out' e where
    loop: "fetch_loop now data components (cs, [Fetched data]) = ((cs', out'), Some e)"
    by auto
  from loop_raise [OF loop store_keys_present [OF assms(1)]] assms(3) o
  have "\<forall>kvs. data \<noteq> JObj kvs" by blast
  from loop_nonobject [OF loop this] show ?thesis by simp
qed

text \<open>
  C3.  The code breaks the claim on the remaining path: with the body
  \<open>{"admin": "Online", "usermode": []}\<close> and the store at process start the call
  returns \<open>False\<close>, and \<open>admin\<close> has been set to \<open>Online\<close>, with its glyph and timestamp,
  before the test of \<open>usermode\<close> raised.
\<close>

theorem failed_fetch_mutates_store:
  "fetch_status_from_github clock_noon
     (Response 200 (Parsed (JObj [(''admin'', JStr ''Online''), (''usermode'', JArr [])])))
     current_status =
   (Inr False,
    [(''admin'', \<lparr>status = ''Online'', last_update = Some ''2025-01-01 12:00:00'',
                  color = green_circle\<rparr>),
     (''usermode'', \<lparr>status = ''Offline'', last_update = None, color = red_circle\<rparr>),
     (''server'', \<lparr>status = ''Offline'', last_update = None, color = red_circle\<rparr>)],
    [Fetched (JObj [(''admin'', JStr ''Online''), (''usermode'', JArr [])]),
     Updated ''admin'' ''Online'', FetchError TypeError])"
  by (simp add: fetch_eval)

section \<open>Fetching the same body twice\<close>

text \<open>
  C5.  For every store and every outcome of the request, a second fetch with the same
  outcome right after the first leaves the store as the first left it (value, glyph
  and \<open>last_update\<close> of every component), whatever the clock reads; it returns the same
  flag and prints no update.
\<close>

theorem fetch_idempotent:
  "fetch_status_from_github now1 outcome cs = (ok1, cs1, out1) \<Longrightarrow>
   fetch_status_from_github now2 outcome cs1 = (ok2, cs2, out2) \<Longrightarrow>
     cs2 = cs1 \<and> ok2 = ok1 \<and> (\<forall>c v. Updated c v \<notin> set out2)"
proof (cases outcome)
  case NetworkFailure
  assume "fetch_status_from_github now1 outcome cs = (ok1, cs1, out1)"
    "fetch_status_from_github now2 outcome cs1 = (ok2, cs2, out2)"
  with NetworkFailure show ?thesis
    by (auto simp: fetch_status_from_github_def fetch_try_def)
next
  case Cancelled
  assume "fetch_status_from_github now1 outcome cs = (ok1, cs1, out1)"
    "fetch_status_from_github now2 outcome cs1 = (ok2, cs2, out2)"
  with Cancelled show ?thesis
    by (auto simp: fetch_status_from_github_def fetch_try_def)
next
  case (Response code b)
  assume a: "fetch_status_from_github now1 outcome cs = (ok1, cs1, out1)"
    "fetch_status_from_github now2 outcome cs1 = (ok2, cs2, out2)"
  show ?thesis
  proof (cases "code = 200")
    case False
    with a Response show ?thesis by (auto simp: fetch_status_from_github_def fetch_try_def)
  next
    case True
    show ?thesis
    proof (cases b)
      case Malformed
      with a Response True show ?thesis
        by (auto simp: fetch_status_from_github_def fetch_try_def)
    next
      case BodyCancelled
      with a Response True show ?thesis
        by (auto simp: fetch_status_from_github_def fetch_try_def)
    next
      case (Parsed data)
      obtain csa outa r where
        l1: "fetch_loop now1 data components (cs, [Fetched data]) = ((csa, outa), r)"
        by (metis prod.exhaust)
      with a(1) Response True Parsed have cs1: "cs1 = csa" and ok1: "ok1 = Inr (r = None)"
        by (auto simp: fetch_status_from_github_def fetch_try_def split: option.splits)
      from loop_settled [OF l1 components_distinct, of cs1 now2 "[Fetched data]"] cs1
      have l2: "fetch_loop now2 data components (cs1, [Fetched data]) = ((cs1, [Fetched data]), r)"
        by simp
      with a(2) Response True Parsed ok1 show ?thesis
        by (auto simp: fetch_status_from_github_def fetch_try_def split: option.splits)
    qed
  qed
qed

theorem fetch_idempotent_witness:
  "fetch_status_from_github clock_noon
     (Response 200 (Parsed (JObj [(''server'', JStr ''Medium'')]))) current_status =
   (Inr True,
    [(''admin'', \<lparr>status = ''Offline'', last_update = None, color = red_circle\<rparr>),
     (''usermode'', \<lparr>status = ''Offline'', last_update = None, color = red_circle\<rparr>),
     (''server'', \<lparr>status = ''Medium'', last_update = Some ''2025-01-01 12:00:00'',
                   color = yellow_circle\<rparr>)],
    [Fetched (JObj [(''server'', JStr ''Medium'')]), Updated ''server'' ''Medium'']) \<and>
   fst (snd (fetch_status_from_github clock_later
     (Response 200 (Parsed (JObj [(''server'', JStr ''Medium'')])))
     [(''admin'', \<lparr>status = ''Offline'', last_update = None, color = red_circle\<rparr>),
      (''usermode'', \<lparr>status = ''Offline'', last_update = None, color = red_circle\<rparr>),
      (''server'', \<lparr>status = ''Medium'', last_update = Some ''2025-01-01 12:00:00'',
                    color = yellow_circle\<rparr>)])) =
    [(''admin'', \<lparr>status = ''Offline'', last_update = None, color = red_circle\<rparr>),
     (''usermode'', \<lparr>status = ''Offline'', last_update = None, color = red_circle\<rparr>),
     (''server'', \<lparr>status = ''Medium'', last_update = Some ''2025-01-01 12:00:00'',
                   color = yellow_circle\<rparr>)]"
proof -
  let ?o = "Response 200 (Parsed (JObj [(''server'', JStr ''Medium'')]))"
  let ?cs1 = "[(''admin'', \<lparr>status = ''Offline'', last_update = None, color = red_circle\<rparr>),
     (''usermode'', \<lparr>status = ''Offline'', last_update = None, color = red_circle\<rparr>),
     (''server'', \<lparr>status = ''Medium'', last_update = Some ''2025-01-01 12:00:00'',
                   color = yellow_circle\<rparr>)]"
  have f1: "fetch_status_from_github clock_noon ?o current_status =
     (Inr True, ?cs1, [Fetched (JObj [(''server'', JStr ''Medium'')]), Updated ''server'' ''Medium''])"
    by (simp add: fetch_eval)
  obtain ok2 cs2 out2 where f2: "fetch_status_from_github clock_later ?o ?cs1 = (ok2, cs2, out2)"
    by (metis prod.exhaust)
  from fetch_idempotent [OF f1 f2] have "cs2 = ?cs1" by simp
  with f1 f2 show ?thesis by simp
qed

section \<open>Invariants of the store\<close>

lemma store_inv_init: "store_inv current_status"
  by (simp add: store_inv_def current_status_def STATUS_OPTIONS_def dict_get_def)

lemma set_store_modify:
  "(k, e) \<in> set (store_modify c f cs) \<Longrightarrow>
     (k \<noteq> c \<and> (k, e) \<in> set cs) \<or> (k = c \<and> (\<exists>e0. (c, e0) \<in> set cs \<and> e = f e0))"
  by (auto simp: store_modify_def split: if_splits)

lemma body_inv:
  assumes "fetch_loop_body now data c cs = Inr (cs', l)" and "store_inv cs"
  shows "store_inv cs'"
proof -
  from body_result [OF assms(1)] show ?thesis
  proof
    assume "cs' = cs \<and> l = []"
    with assms(2) show ?thesis by simp
  next
    assume "\<exists>v kvs e. data = JObj kvs \<and> map_of kvs c = Some (JStr v) \<and>
        map_of (dict_get STATUS_OPTIONS c []) v \<noteq> None \<and>
        map_of cs c = Some e \<and> status e \<noteq> v \<and>
        cs' = store_modify c
                (\<lambda>entry. entry\<lparr>status := v, color := get_status_color c v,
                                 last_update := Some (now c)\<rparr>) cs \<and>
        l = [Updated c v]"
    then obtain v where al: "map_of (dict_get STATUS_OPTIONS c []) v \<noteq> None"
      and cs': "cs' = store_modify c
                (\<lambda>entry. entry\<lparr>status := v, color := get_status_color c v,
                                 last_update := Some (now c)\<rparr>) cs"
      by blast
    show ?thesis
      unfolding store_inv_def
    proof (clarify)
      fix k e
      assume "(k, e) \<in> set cs'"
      from set_store_modify [OF this [unfolded cs']] assms(2) table_glyph [OF al]
      show "map_of (dict_get STATUS_OPTIONS k []) (status e) = Some (color e)"
        by (auto simp: store_inv_def)
    qed
  qed
qed

lemma loop_inv:
  "fetch_loop now data cl (cs, out) = ((cs', out'), r) \<Longrightarrow> store_inv cs \<Longrightarrow> store_inv cs'"
proof (induction cl arbitrary: cs out)
  case Nil
  then show ?case by simp
next
  case (Cons x rest)
  show ?case
  proof (cases "fetch_loop_body now data x cs")
    case (Inl e)
    with Cons.prems show ?thesis by simp
  next
    case (Inr p)
    obtain cs1 l where p: "p = (cs1, l)" by (cases p)
    from Inr p Cons.prems(1)
    have rest: "fetch_loop now data rest (cs1, out @ l) = ((cs', out'), r)" by simp
    from Cons.IH [OF rest body_inv [OF Inr [unfolded p] Cons.prems(2)]] show ?thesis .
  qed
qed

lemma fetch_store_cases:
  "fetch_status_from_github now outcome cs = (ok, cs', out) \<Longrightarrow>
     cs' = cs \<or>
     (\<exists>data out' r. fetch_loop now data components (cs, [Fetched data]) = ((cs', out'), r))"
  by (auto simp: fetch_status_from_github_def fetch_try_def
           split: http_outcome.splits body.splits if_splits option.splits prod.splits)

lemma fetch_inv:
  "fetch_status_from_github now outcome cs = (ok, cs', out) \<Longrightarrow> store_inv cs \<Longrightarrow> store_inv cs'"
  by (auto dest!: fetch_store_cases dest: loop_inv)

lemma fetch_keys:
  "fetch_status_from_github now outcome cs = (ok, cs', out) \<Longrightarrow> map fst cs' = map fst cs"
  by (auto dest!: fetch_store_cases dest: loop_keys)

lemma run_fetches_snoc:
  "run_fetches (inputs @ [(now, outcome)]) =
     fst (snd (fetch_status_from_github now outcome (run_fetches inputs)))"
  by (simp add: run_fetches_def)

lemma run_fetches_inv: "store_inv (run_fetches inputs) \<and> store_keys_ok (run_fetches inputs)"
proof (induction inputs rule: rev_induct)
  case Nil
  show ?case by (simp add: run_fetches_def store_inv_init current_status_keys)
next
  case (snoc x xs)
  obtain now outcome where x: "x = (now, outcome)" by (cases x)
  obtain ok cs' out where
    f: "fetch_status_from_github now outcome (run_fetches xs) = (ok, cs', out)"
    by (metis prod.exhaust)
  from fetch_inv [OF f] fetch_keys [OF f] snoc show ?case
    by (simp add: x run_fetches_snoc f store_keys_ok_def)
qed

lemma table_not_white:
  "map_of (dict_get STATUS_OPTIONS c []) v = Some g \<Longrightarrow> g \<noteq> white_circle"
  by (auto simp: STATUS_OPTIONS_def dict_get_def green_circle_def yellow_circle_def
        orange_circle_def red_circle_def white_circle_def split: if_splits)

text \<open>
  C4.  After any sequence of fetches from process start, with arbitrary outcomes, bodies
  and clocks, every entry of the store belongs to one of the three components and its
  status is a key of that component's table.  A fetched value outside the allowed set
  is not stored: the entry of its key is left as it was.
\<close>

theorem stored_status_allowed:
  "(\<forall>(c, e) \<in> set (run_fetches inputs). c \<in> set components \<and> status e \<in> set (allowed c)) \<and>
   (\<forall>now kvs c w. map_of kvs c = Some w \<and> (\<forall>v. w = JStr v \<longrightarrow> v \<notin> set (allowed c)) \<longrightarrow>
      map_of (fst (snd (fetch_status_from_github now (Response 200 (Parsed (JObj kvs)))
                          (run_fetches inputs)))) c =
      map_of (run_fetches inputs) c)"
proof (intro conjI allI impI)
  from run_fetches_inv [of inputs]
  have inv: "store_inv (run_fetches inputs)" and keys: "map fst (run_fetches inputs) = components"
    by (simp_all add: store_keys_ok_def)
  show "\<forall>(c, e) \<in> set (run_fetches inputs). c \<in> set components \<and> status e \<in> set (allowed c)"
  proof (clarify)
    fix c e
    assume m: "(c, e) \<in> set (run_fetches inputs)"
    then have "c \<in> set (map fst (run_fetches inputs))" by force
    with keys have 1: "c \<in> set components" by simp
    from inv m have "map_of (dict_get STATUS_OPTIONS c []) (status e) = Some (color e)"
      by (auto simp: store_inv_def)
    then have "status e \<in> set (allowed c)" by (simp add: allowed_iff)
    with 1 show "c \<in> set components \<and> status e \<in> set (allowed c)" by simp
  qed
next
  fix now kvs c w
  assume h: "map_of kvs c = Some w \<and> (\<forall>v. w = JStr v \<longrightarrow> v \<notin> set (allowed c))"
  obtain ok cs' out where
    f: "fetch_status_from_github now (Response 200 (Parsed (JObj kvs))) (run_fetches inputs) =
        (ok, cs', out)"
    by (metis prod.exhaust)
  from fetch_parsed [OF f] obtain out' r where
    loop: "fetch_loop now (JObj kvs) components (run_fetches inputs, [Fetched (JObj kvs)]) =
      ((cs', out'), r)"
    by blast
  from loop_keeps [OF loop] h have "map_of cs' c = map_of (run_fetches inputs) c" by blast
  with f show "map_of (fst (snd (fetch_status_from_github now (Response 200 (Parsed (JObj kvs)))
                          (run_fetches inputs)))) c =
      map_of (run_fetches inputs) c"
    by simp
qed

theorem stored_status_allowed_witness:
  "(''admin'', \<lparr>status = ''Sleeping'', last_update = Some ''2025-01-01 12:00:00'',
                color = orange_circle\<rparr>)
     \<in> set (run_fetches
          [(clock_noon, Response 200 (Parsed (JObj [(''admin'', JStr ''Sleeping'')])))]) \<and>
   ''Sleeping'' \<in> set (allowed ''admin'') \<and>
   map_of (fst (snd (fetch_status_from_github clock_later
       (Response 200 (Parsed (JObj [(''admin'', JStr ''Updating'')])))
       (run_fetches
          [(clock_noon, Response 200 (Parsed (JObj [(''admin'', JStr ''Sleeping'')])))]))))
     ''admin'' =
   map_of (run_fetches
          [(clock_noon, Response 200 (Parsed (JObj [(''admin'', JStr ''Sleeping'')])))]) ''admin''"
proof -
  let ?inputs = "[(clock_noon, Response 200 (Parsed (JObj [(''admin'', JStr ''Sleeping'')])))]"
  let ?e = "\<lparr>status = ''Sleeping'', last_update = Some ''2025-01-01 12:00:00'',
                color = orange_circle\<rparr>"
  have m: "(''admin'', ?e) \<in> set (run_fetches ?inputs)"
    by (simp add: run_fetches_def fetch_eval)
  have n: "map_of [(''admin'', JStr ''Updating'')] ''admin'' = Some (JStr ''Updating'') \<and>
      (\<forall>v. JStr ''Updating'' = JStr v \<longrightarrow> v \<notin> set (allowed ''admin''))"
    by (simp add: allowed_def STATUS_OPTIONS_def dict_get_def)
  note t = stored_status_allowed [of ?inputs]
  from t m have 1: "status ?e \<in> set (allowed ''admin'')" by blast
  have 2: "map_of (fst (snd (fetch_status_from_github clock_later
       (Response 200 (Parsed (JObj [(''admin'', JStr ''Updating'')])))
       (run_fetches ?inputs)))) ''admin'' = map_of (run_fetches ?inputs) ''admin''"
    by (rule t [THEN conjunct2, rule_format, OF n])
  from m 1 2 show ?thesis by simp
qed

text \<open>
  C10.  At process start every component is \<open>Offline\<close> with the red glyph, which is the
  glyph of \<open>Offline\<close> in each table.  After any sequence of fetches the glyph of every
  entry is the glyph its table gives its status, which is what \<open>get_status_color\<close>
  returns for it, and it is never the white fallback glyph.
\<close>

theorem stored_glyph_consistent:
  "(\<forall>(c, e) \<in> set current_status.
      status e = ''Offline'' \<and> color e = red_circle \<and>
      get_status_color c ''Offline'' = red_circle) \<and>
   (\<forall>(c, e) \<in> set (run_fetches inputs).
      map_of (dict_get STATUS_OPTIONS c []) (status e) = Some (color e) \<and>
      color e = get_status_color c (status e) \<and>
      color e \<noteq> white_circle)"
proof (intro conjI)
  show "\<forall>(c, e) \<in> set current_status.
      status e = ''Offline'' \<and> color e = red_circle \<and>
      get_status_color c ''Offline'' = red_circle"
    by (simp add: current_status_def get_status_color_def dict_get_def STATUS_OPTIONS_def)
next
  from run_fetches_inv [of inputs] have inv: "store_inv (run_fetches inputs)" by simp
  show "\<forall>(c, e) \<in> set (run_fetches inputs).
      map_of (dict_get STATUS_OPTIONS c []) (status e) = Some (color e) \<and>
      color e = get_status_color c (status e) \<and>
      color e \<noteq> white_circle"
  proof (clarify)
    fix c e
    assume "(c, e) \<in> set (run_fetches inputs)"
    with inv have g: "map_of (dict_get STATUS_OPTIONS c []) (status e) = Some (color e)"
      by (auto simp: store_inv_def)
    from table_glyph [of c "status e"] g have "color e = get_status_color c (status e)"
      by simp
    with g table_not_white [OF g]
    show "map_of (dict_get STATUS_OPTIONS c []) (status e) = Some (color e) \<and>
      color e = get_status_color c (status e) \<and> color e \<noteq> white_circle"
      by simp
  qed
qed

theorem stored_glyph_consistent_witness:
  "(''usermode'', \<lparr>status = ''Updating'', last_update = Some ''2025-01-01 12:00:30'',
                   color = yellow_circle\<rparr>)
     \<in> set (run_fetches
          [(clock_noon, NetworkFailure),
           (clock_later, Response 200 (Parsed (JObj [(''usermode'', JStr ''Updating'')])))]) \<and>
   yellow_circle = get_status_color ''usermode'' ''Updating'' \<and>
   yellow_circle \<noteq> white_circle"
proof -
  let ?inputs = "[(clock_noon, NetworkFailure),
           (clock_later, Response 200 (Parsed (JObj [(''usermode'', JStr ''Updating'')])))]"
  let ?e = "\<lparr>status = ''Updating'', last_update = Some ''2025-01-01 12:00:30'',
                   color = yellow_circle\<rparr>"
  have m: "(''usermode'', ?e) \<in> set (run_fetches ?inputs)"
    by (simp add: run_fetches_def fetch_eval)
  from stored_glyph_consistent [of ?inputs] m
  have "color ?e = get_status_color ''usermode'' (status ?e) \<and> color ?e \<noteq> white_circle"
    by blast
  with m show ?thesis by simp
qed

section \<open>The result of a fetch\<close>










section \<open>The renderer is a function of the store\<close>

text \<open>
  C9.  \<open>create_status_embed\<close> takes the store and the clock reading and returns the
  embed, no more: it prints nothing, calls nothing and returns no store.  On a store
  with the three components, two readings of the clock give the same embed up to its
  timestamp.  The title is fixed; there is one field per component, with the glyph in
  its header and the lines \<open>Status\<close> and \<open>Last Update\<close> in its body, \<open>Never\<close>
  standing for an absent timestamp.
\<close>

theorem renderer_deterministic:
  assumes "store_keys_ok cs"
  shows "\<exists>e a u s.
           create_status_embed cs now1 = Inr e \<and>
           create_status_embed cs now2 = Inr (e\<lparr>embed_timestamp := now2\<rparr>) \<and>
           embed_timestamp e = now1 \<and>
           embed_title e = desktop_computer @ '' Sysware System Status'' \<and>
           map_of cs ''admin'' = Some a \<and> map_of cs ''usermode'' = Some u \<and>
           map_of cs ''server'' = Some s \<and>
           embed_fields e =
             [\<lparr>field_name = color a @ '' Admin Status'',
               field_value = ''**Status:** '' @ status a @ [CHR 0x0A] @ ''**Last Update:** '' @
                 (case last_update a of None \<Rightarrow> ''Never''
                  | Some t \<Rightarrow> if t = [] then ''Never'' else t),
               field_inline = False\<rparr>,
              \<lparr>field_name = color u @ '' User Mode'',
               field_value = ''**Status:** '' @ status u @ [CHR 0x0A] @ ''**Last Update:** '' @
                 (case last_update u of None \<Rightarrow> ''Never''
                  | Some t \<Rightarrow> if t = [] then ''Never'' else t),
               field_inline = False\<rparr>,
              \<lparr>field_name = color s @ '' Server'',
               field_value = ''**Status:** '' @ status s @ [CHR 0x0A] @ ''**Last Update:** '' @
                 (case last_update s of None \<Rightarrow> ''Never''
                  | Some t \<Rightarrow> if t = [] then ''Never'' else t),
               field_inline = False\<rparr>]"
proof -
  from store_keys_lookup [OF assms] obtain a u s
    where cs: "cs = [(''admin'', a), (''usermode'', u), (''server'', s)]" by blast
  show ?thesis
    unfolding cs
    by (simp add: create_status_embed_def status_value_def or_never_def Let_def
          split: prod.splits)
qed

theorem renderer_deterministic_witness:
  "store_keys_ok current_status \<and>
   (\<exists>e. create_status_embed current_status 7 = Inr e \<and>
        create_status_embed current_status 9 = Inr (e\<lparr>embed_timestamp := 9\<rparr>) \<and>
        field_value (hd (embed_fields e)) =
          ''**Status:** Offline'' @ [CHR 0x0A] @ ''**Last Update:** Never'')"
proof -
  have k: "store_keys_ok current_status" by (rule current_status_keys)
  from renderer_deterministic [OF k, of 7 9] obtain e a where
    e: "create_status_embed current_status 7 = Inr e"
      "create_status_embed current_status 9 = Inr (e\<lparr>embed_timestamp := 9\<rparr>)"
      "map_of current_status ''admin'' = Some a"
      "field_value (hd (embed_fields e)) =
         ''**Status:** '' @ status a @ [CHR 0x0A] @ ''**Last Update:** '' @
                 (case last_update a of None \<Rightarrow> ''Never''
                  | Some t \<Rightarrow> if t = [] then ''Never'' else t)"
    by auto
  from e(3) have "a = \<lparr>status = ''Offline'', last_update = None, color = red_circle\<rparr>"
    by (simp add: current_status_def)
  with e(4) have "field_value (hd (embed_fields e)) =
          ''**Status:** Offline'' @ [CHR 0x0A] @ ''**Last Update:** Never''"
    by simp
  with k e(1,2) show ?thesis by blast
qed

section \<open>The publisher\<close>

lemma create_status_embed_returns:
  assumes "store_keys_ok cs"
  shows "\<exists>e. create_status_embed cs now = Inr e"
proof -
  from store_keys_lookup [OF assms] obtain a u s
    where cs: "cs = [(''admin'', a), (''usermode'', u), (''server'', s)]" by blast
  show ?thesis
    unfolding cs by (simp add: create_status_embed_def Let_def split: prod.splits)
qed

lemma keys_message_edit:
  "message_edit fault ch mid e = Inr ch' \<Longrightarrow> map fst ch' = map fst ch"
  by (cases fault) (auto simp: message_edit_def)

lemma create_initial_status_sends:
  assumes "store_keys_ok cs"
  shows "\<exists>e. create_initial_status now cs new_id reply_id ctx =
           Inr (ctx @ [(new_id, Some e), (reply_id, None)], new_id,
                [SendEmbed e, SendText new_id])"
proof -
  from create_status_embed_returns [OF assms] obtain e where "create_status_embed cs now = Inr e"
    by blast
  then show ?thesis by (simp add: create_initial_status_def)
qed

text \<open>
  C6, as stated, fails: with no identifier configured and a channel that is not found,
  the only line printed is "Channel not found!", not the request to configure an
  identifier.
\<close>

theorem publisher_unconfigured_counterexample:
  "update_status_message None None 0 current_status 0 None = Inr (None, [], [ChannelNotFound])"
  by (simp add: update_status_message_def)

text \<open>
  C6, amended.  For every call of \<open>update_status_message\<close> with the identifier zero
  (the value an absent setting gives), on a store with the three components: no call
  is made on the platform, the channel is as before, and one line is printed: the
  request to configure an identifier when the channel is found, "Channel not found!"
  when it is not.
\<close>

theorem publisher_unconfigured:
  assumes "store_keys_ok cs"
  shows "update_status_message fetch_fault edit_fault now cs 0 chan =
           Inr (chan, [], [if chan = None then ChannelNotFound else NoMessageId])"
proof (cases chan)
  case None
  then show ?thesis by (simp add: update_status_message_def)
next
  case (Some ch)
  from create_status_embed_returns [OF assms] obtain e where "create_status_embed cs now = Inr e"
    by blast
  with Some show ?thesis by (simp add: update_status_message_def)
qed

theorem publisher_unconfigured_witness:
  "store_keys_ok current_status \<and>
   update_status_message None None 0 current_status 0 (Some [(42, None)]) =
     Inr (Some [(42, None)], [], [NoMessageId])"
proof -
  have k: "store_keys_ok current_status" by (rule current_status_keys)
  from publisher_unconfigured [OF k, of None None 0 "Some [(42, None)]"] k
  show ?thesis by simp
qed

text \<open>
  C7.  On a store with the three components \<open>update_status_message\<close> returns, the
  identifiers of the messages of the channel are as before, and every call it makes on
  the platform fetches or edits the message of the configured identifier: it never
  sends one.  With a non-zero identifier that does not resolve (the channel is not
  found, or \<open>fetch_message\<close> raises \<open>NotFound\<close>) the channel is unchanged and the one
  line printed is the warning.
\<close>

theorem publisher_never_creates:
  assumes "store_keys_ok cs"
  shows "\<exists>chan' calls out.
           update_status_message fetch_fault edit_fault now cs message_id chan =
             Inr (chan', calls, out) \<and>
           map_option (map fst) chan' = map_option (map fst) chan \<and>
           (\<forall>c \<in> set calls. c = FetchMessage message_id \<or> (\<exists>e. c = EditMessage message_id e)) \<and>
           (message_id \<noteq> 0 \<and> chan = None \<longrightarrow>
              chan' = chan \<and> calls = [] \<and> out = [ChannelNotFound]) \<and>
           (\<forall>ch. message_id \<noteq> 0 \<and> chan = Some ch \<and>
                 fetch_message fetch_fault ch message_id = Inl NotFound \<longrightarrow>
              chan' = chan \<and> calls = [FetchMessage message_id] \<and>
              out = [MessageNotFound message_id])"
proof (cases chan)
  case None
  then show ?thesis by (simp add: update_status_message_def)
next
  case (Some ch)
  from create_status_embed_returns [OF assms] obtain e where e: "create_status_embed cs now = Inr e"
    by blast
  show ?thesis
  proof (cases "message_id = 0")
    case True
    with Some e show ?thesis by (simp add: update_status_message_def)
  next
    case False
    show ?thesis
    proof (cases "fetch_message fetch_fault ch message_id")
      case (Inl err)
      with Some e False show ?thesis
        by (simp add: update_status_message_def edit_handler_def)
    next
      case (Inr m)
      show ?thesis
      proof (cases "message_edit edit_fault ch message_id e")
        case (Inl err)
        with Some e False Inr show ?thesis
          by (simp add: update_status_message_def)
      next
        case Inr2: (Inr ch')
        from keys_message_edit [OF Inr2] Some e False Inr Inr2 show ?thesis
          by (simp add: update_status_message_def)
      qed
    qed
  qed
qed

theorem publisher_never_creates_witness:
  "store_keys_ok current_status \<and>
   fetch_message None [(42, None)] 7 = Inl NotFound \<and>
   update_status_message None None 0 current_status 7 (Some [(42, None)]) =
     Inr (Some [(42, None)], [FetchMessage 7], [MessageNotFound 7])"
proof -
  have k: "store_keys_ok current_status" by (rule current_status_keys)
  have n: "fetch_message None [(42, None)] 7 = Inl NotFound"
    by (simp add: fetch_message_def)
  from publisher_never_creates [OF k, of None None 0 7 "Some [(42, None)]"]
  obtain chan' calls out where
    u: "update_status_message None None 0 current_status 7 (Some [(42, None)]) =
         Inr (chan', calls, out)"
    and r: "\<forall>ch. (7::int) \<noteq> 0 \<and> Some [(42, None)] = Some ch \<and>
              fetch_message None ch 7 = Inl NotFound \<longrightarrow>
            chan' = Some [(42, None)] \<and> calls = [FetchMessage 7] \<and> out = [MessageNotFound 7]"
    by blast
  from r n have "chan' = Some [(42, None)] \<and> calls = [FetchMessage 7] \<and> out = [MessageNotFound 7]"
    by simp
  with k n u show ?thesis by simp
qed

end
